theory Spec2Isabelle
  imports Main
begin

section \<open>Data model of \<^verbatim>\<open>mailing_lists.go\<close>\<close>

text \<open>
  A Go \<^verbatim>\<open>error\<close> value is modelled by its message; the nil error is \<open>None\<close> of
  \<open>error option\<close>.
\<close>

datatype error = Error string

text \<open>The struct \<^verbatim>\<open>List\<close> (lines 23-30).\<close>

record List =
  Address :: string
  Name :: string
  Description :: string
  AccessLevel :: string
  CreatedAt :: string
  MembersCount :: int

text \<open>
  The struct \<^verbatim>\<open>ListsOptions\<close> (lines 32-34); a nil pointer to it is \<open>None\<close>. The limit
  is only compared with zero and printed, never computed with, so it is an integer without
  wrap-around.
\<close>

record ListsOptions =
  Limit :: int

text \<open>
  Modelled from the spec: the struct \<^verbatim>\<open>Paging\<close> is declared outside
  \<^verbatim>\<open>mailing_lists.go\<close>. The spec gives the cursor four URL fields, each a string that
  may be empty; the source reads and writes them under these names.
\<close>

record Paging =
  First :: string
  Next :: string
  Previous :: string
  Last :: string

text \<open>The struct \<^verbatim>\<open>listsResponse\<close> (lines 36-39). A nil slice is the empty list.\<close>

record listsResponse =
  Lists :: "List list"
  Paging :: Paging

text \<open>
  The receiver behind the \<^verbatim>\<open>Mailgun\<close> interface, declared outside
  \<^verbatim>\<open>mailing_lists.go\<close>: the calls \<^verbatim>\<open>mg.Client()\<close> and \<^verbatim>\<open>mg.APIKey()\<close> read the
  fields \<open>client\<close> and \<open>apiKey\<close>. The HTTP client is an opaque handle.
\<close>

type_synonym HTTPClient = nat

record MailgunImpl =
  apiBase :: string
  client :: HTTPClient
  apiKey :: string

text \<open>
  The struct \<^verbatim>\<open>ListsIterator\<close> (lines 41-45) embeds \<^verbatim>\<open>listsResponse\<close>: the record
  extends it by the two further fields.
\<close>

record ListsIterator = listsResponse +
  mg :: MailgunImpl
  err :: "error option"

section \<open>Collaborators declared outside the source file\<close>

text \<open>
  Modelled from the spec: the request builder (\<^verbatim>\<open>newHTTPRequest\<close>, \<^verbatim>\<open>setClient\<close>,
  \<^verbatim>\<open>setBasicAuth\<close>, \<^verbatim>\<open>addParameter\<close>) and the form payload
  (\<^verbatim>\<open>newUrlEncodedPayload\<close>, \<^verbatim>\<open>addValue\<close>) are declared outside
  \<^verbatim>\<open>mailing_lists.go\<close>. The spec names them only as a URL builder that appends query
  parameters, a basic-auth credential scheme and the body of a request. The model keeps
  what each call was given: a request is the record of the URL, the parameters added in
  order, the credentials and the client; a payload is the sequence of the key/value pairs
  added to it, in the order of the calls.
\<close>

record httpRequest =
  URL :: string
  Parameters :: "(string \<times> string) list"
  BasicAuthUser :: string
  BasicAuthPassword :: string
  Client :: "HTTPClient option"

definition newHTTPRequest :: "string \<Rightarrow> httpRequest" where
  "newHTTPRequest url =
     \<lparr>URL = url, Parameters = [], BasicAuthUser = [], BasicAuthPassword = [], Client = None\<rparr>"

definition setClient :: "HTTPClient \<Rightarrow> httpRequest \<Rightarrow> httpRequest" where
  "setClient c r = r\<lparr>Client := Some c\<rparr>"

definition setBasicAuth :: "string \<Rightarrow> string \<Rightarrow> httpRequest \<Rightarrow> httpRequest" where
  "setBasicAuth user password r = r\<lparr>BasicAuthUser := user, BasicAuthPassword := password\<rparr>"

definition addParameter :: "string \<Rightarrow> string \<Rightarrow> httpRequest \<Rightarrow> httpRequest" where
  "addParameter name v r = r\<lparr>Parameters := Parameters r @ [(name, v)]\<rparr>"

type_synonym urlEncodedPayload = "(string \<times> string) list"

definition newUrlEncodedPayload :: urlEncodedPayload where
  "newUrlEncodedPayload = []"

definition addValue :: "string \<Rightarrow> string \<Rightarrow> urlEncodedPayload \<Rightarrow> urlEncodedPayload" where
  "addValue key v p = p @ [(key, v)]"

record httpResponse =
  Code :: int
  Data :: string

text \<open>
  What reaches the transport: one entry for every request handed to
  \<^verbatim>\<open>getResponseFromJSON\<close>, \<^verbatim>\<open>makePostRequest\<close> or \<^verbatim>\<open>makePutRequest\<close>.
\<close>

datatype call =
  GET httpRequest
  | POST httpRequest urlEncodedPayload
  | PUT httpRequest urlEncodedPayload

text \<open>
  The helpers and constants that \<^verbatim>\<open>mailing_lists.go\<close> uses and does not declare are
  parameters of the model. The transport helpers see the calls made so far, so that a
  server may answer the same URL differently over time.
  \<^item> \<open>generateUrlWithParameters r\<close> is the pair \<^verbatim>\<open>(url, err)\<close> that the method returns.
  \<^item> \<open>getResponseFromJSON sent r v\<close> is the error returned together with the contents of
    the target \<^verbatim>\<open>v\<close> after the call, given its contents before.
  \<^item> \<open>makePostRequest\<close> and \<open>makePutRequest\<close> give the pair \<^verbatim>\<open>(response, err)\<close>.
  \<^item> \<open>parseFromJSON response l\<close> is the error with the contents of the target after.
\<close>

record deps =
  generatePublicApiUrl :: "MailgunImpl \<Rightarrow> string \<Rightarrow> string"
  listsEndpoint :: string
  basicAuthUser :: string
  generateUrlWithParameters :: "httpRequest \<Rightarrow> string \<times> error option"
  getResponseFromJSON ::
    "call list \<Rightarrow> httpRequest \<Rightarrow> listsResponse \<Rightarrow> error option \<times> listsResponse"
  makePostRequest ::
    "call list \<Rightarrow> httpRequest \<Rightarrow> urlEncodedPayload \<Rightarrow> httpResponse \<times> error option"
  makePutRequest ::
    "call list \<Rightarrow> httpRequest \<Rightarrow> urlEncodedPayload \<Rightarrow> httpResponse \<times> error option"
  parseFromJSON :: "httpResponse \<Rightarrow> List \<Rightarrow> error option \<times> List"

text \<open>\<^verbatim>\<open>strconv.Itoa\<close>: the decimal numeral of an integer, with a sign when negative.\<close>

definition digit :: "nat \<Rightarrow> char" where
  "digit d = char_of (48 + d)"

fun utoa :: "nat \<Rightarrow> string" where
  "utoa n = (if n < 10 then [digit n] else utoa (n div 10) @ [digit (n mod 10)])"

definition Itoa :: "int \<Rightarrow> string" where
  "Itoa i = (if i < 0 then CHR ''-'' # utoa (nat (- i)) else utoa (nat i))"

section \<open>The iterator\<close>

text \<open>
  The state that the iterator's methods run in: the receiver \<^verbatim>\<open>li\<close>, the caller's
  slice behind the pointer \<^verbatim>\<open>items\<close>, and the calls that reached the transport so far.
  The receiver and the pointer are taken to be non-nil, and slices are values: the
  assignment \<^verbatim>\<open>*items = li.Lists\<close> copies the page.
\<close>

record store =
  li :: ListsIterator
  items :: "List list"
  sent :: "call list"

text \<open>
  \<^verbatim>\<open>ListMailingLists\<close> (lines 48-63). The first definition is the request \<^verbatim>\<open>r\<close> as it
  stands at line 57; the second is the rest of the function. It is given the calls sent
  so far and returns them with the iterator.
\<close>

definition ListMailingLists_r :: "deps \<Rightarrow> MailgunImpl \<Rightarrow> ListsOptions option \<Rightarrow> httpRequest" where
  "ListMailingLists_r d m opts =
     (let r = newHTTPRequest (generatePublicApiUrl d m (listsEndpoint d) @ ''/pages'');
          r = setClient (client m) r;
          r = setBasicAuth (basicAuthUser d) (apiKey m) r
      in case opts of
           None \<Rightarrow> r
         | Some p \<Rightarrow> if Limit p \<noteq> 0 then addParameter ''limit'' (Itoa (Limit p)) r else r)"

definition ListMailingLists ::
  "deps \<Rightarrow> MailgunImpl \<Rightarrow> ListsOptions option \<Rightarrow> call list \<Rightarrow> ListsIterator \<times> call list" where
  "ListMailingLists d m opts w =
     (let (url, e) = generateUrlWithParameters d (ListMailingLists_r d m opts)
      in (\<lparr>Lists = [],
           Paging = \<lparr>First = url, Next = url, Previous = [], Last = []\<rparr>,
           mg = m,
           err = e\<rparr>, w))"

text \<open>\<^verbatim>\<open>Err\<close> (lines 66-68).\<close>

definition ListsIterator_Err :: "ListsIterator \<Rightarrow> error option" where
  "ListsIterator_Err it = err it"

text \<open>
  \<^verbatim>\<open>fetch\<close> (lines 154-160): the request goes to \<^verbatim>\<open>getResponseFromJSON\<close> with a pointer
  to the embedded \<^verbatim>\<open>listsResponse\<close>, whose contents after the call replace the
  receiver's page and cursor.
\<close>

definition fetch :: "deps \<Rightarrow> string \<Rightarrow> store \<Rightarrow> error option \<times> store" where
  "fetch d url s =
     (let r = newHTTPRequest url;
          r = setClient (client (mg (li s))) r;
          r = setBasicAuth (basicAuthUser d) (apiKey (mg (li s))) r;
          (e, v) = getResponseFromJSON d (sent s) r (listsResponse.truncate (li s))
      in (e, s\<lparr>li := (li s)\<lparr>Lists := Lists v, Paging := Paging v\<rparr>, sent := sent s @ [GET r]\<rparr>))"

text \<open>\<^verbatim>\<open>GetPrevious\<close> (lines 72-74) and \<^verbatim>\<open>GetNext\<close> (lines 78-80).\<close>

definition ListsIterator_GetPrevious :: "deps \<Rightarrow> store \<Rightarrow> error option \<times> store" where
  "ListsIterator_GetPrevious d s = fetch d (Previous (Paging (li s))) s"

definition ListsIterator_GetNext :: "deps \<Rightarrow> store \<Rightarrow> error option \<times> store" where
  "ListsIterator_GetNext d s = fetch d (Next (Paging (li s))) s"

text \<open>\<^verbatim>\<open>Next\<close> (lines 85-98).\<close>

definition ListsIterator_Next :: "deps \<Rightarrow> store \<Rightarrow> bool \<times> store" where
  "ListsIterator_Next d s =
     (if err (li s) \<noteq> None then (False, s)
      else
        let (e, s) = fetch d (Next (Paging (li s))) s;
            s = s\<lparr>li := (li s)\<lparr>err := e\<rparr>\<rparr>
        in if err (li s) \<noteq> None then (False, s)
           else
             let s = s\<lparr>items := Lists (li s)\<rparr>
             in if length (Lists (li s)) = 0 then (False, s) else (True, s))"

text \<open>\<^verbatim>\<open>First\<close> (lines 103-113).\<close>

definition ListsIterator_First :: "deps \<Rightarrow> store \<Rightarrow> bool \<times> store" where
  "ListsIterator_First d s =
     (if err (li s) \<noteq> None then (False, s)
      else
        let (e, s) = fetch d (First (Paging (li s))) s;
            s = s\<lparr>li := (li s)\<lparr>err := e\<rparr>\<rparr>
        in if err (li s) \<noteq> None then (False, s)
           else (True, s\<lparr>items := Lists (li s)\<rparr>))"

text \<open>\<^verbatim>\<open>Last\<close> (lines 119-129).\<close>

definition ListsIterator_Last :: "deps \<Rightarrow> store \<Rightarrow> bool \<times> store" where
  "ListsIterator_Last d s =
     (if err (li s) \<noteq> None then (False, s)
      else
        let (e, s) = fetch d (Last (Paging (li s))) s;
            s = s\<lparr>li := (li s)\<lparr>err := e\<rparr>\<rparr>
        in if err (li s) \<noteq> None then (False, s)
           else (True, s\<lparr>items := Lists (li s)\<rparr>))"

text \<open>\<^verbatim>\<open>Previous\<close> (lines 134-150).\<close>

definition ListsIterator_Previous :: "deps \<Rightarrow> store \<Rightarrow> bool \<times> store" where
  "ListsIterator_Previous d s =
     (if err (li s) \<noteq> None then (False, s)
      else if Previous (Paging (li s)) = [] then (False, s)
      else
        let (e, s) = fetch d (Previous (Paging (li s))) s;
            s = s\<lparr>li := (li s)\<lparr>err := e\<rparr>\<rparr>
        in if err (li s) \<noteq> None then (False, s)
           else
             let s = s\<lparr>items := Lists (li s)\<rparr>
             in if length (Lists (li s)) = 0 then (False, s) else (True, s))"

text \<open>
  A caller's program over one iterator: the six navigation methods, what a call reports
  (the boolean of \<^verbatim>\<open>First\<close>, \<^verbatim>\<open>Next\<close>, \<^verbatim>\<open>Previous\<close> and \<^verbatim>\<open>Last\<close>, the error of
  \<^verbatim>\<open>GetNext\<close> and \<^verbatim>\<open>GetPrevious\<close>), and a sequence of calls run in order.
\<close>

datatype nav = NavFirst | NavNext | NavPrevious | NavLast | NavGetNext | NavGetPrevious

datatype reply = Flag bool | Failure "error option"

fun call_nav :: "deps \<Rightarrow> nav \<Rightarrow> store \<Rightarrow> reply \<times> store" where
  "call_nav d NavFirst s = apfst Flag (ListsIterator_First d s)"
| "call_nav d NavNext s = apfst Flag (ListsIterator_Next d s)"
| "call_nav d NavPrevious s = apfst Flag (ListsIterator_Previous d s)"
| "call_nav d NavLast s = apfst Flag (ListsIterator_Last d s)"
| "call_nav d NavGetNext s = apfst Failure (ListsIterator_GetNext d s)"
| "call_nav d NavGetPrevious s = apfst Failure (ListsIterator_GetPrevious d s)"

fun run :: "deps \<Rightarrow> nav list \<Rightarrow> store \<Rightarrow> reply list \<times> store" where
  "run d [] s = ([], s)"
| "run d (c # cs) s =
     (let (x, s) = call_nav d c s;
          (xs, s) = run d cs s
      in (x # xs, s))"

text \<open>The request and the form payload of a call that reached the transport.\<close>

fun request_of :: "call \<Rightarrow> httpRequest" where
  "request_of (GET r) = r"
| "request_of (POST r p) = r"
| "request_of (PUT r p) = r"

fun payload_of :: "call \<Rightarrow> urlEncodedPayload" where
  "payload_of (GET r) = []"
| "payload_of (POST r p) = p"
| "payload_of (PUT r p) = p"

section \<open>Creating and updating a list\<close>

text \<open>The zero value of \<^verbatim>\<open>List\<close>: \<^verbatim>\<open>List{}\<close> and a fresh \<^verbatim>\<open>var l List\<close>.\<close>

definition List_zero :: List where
  "List_zero =
     \<lparr>Address = [], Name = [], Description = [], AccessLevel = [], CreatedAt = [],
      MembersCount = 0\<rparr>"

text \<open>\<^verbatim>\<open>CreateMailingList\<close> (lines 167-191).\<close>

definition CreateMailingList ::
  "deps \<Rightarrow> MailgunImpl \<Rightarrow> List \<Rightarrow> call list \<Rightarrow> (List \<times> error option) \<times> call list" where
  "CreateMailingList d m prototype w =
     (let r = newHTTPRequest (generatePublicApiUrl d m (listsEndpoint d));
          r = setClient (client m) r;
          r = setBasicAuth (basicAuthUser d) (apiKey m) r;
          p = newUrlEncodedPayload;
          p = (if Address prototype \<noteq> [] then addValue ''address'' (Address prototype) p else p);
          p = (if Name prototype \<noteq> [] then addValue ''name'' (Name prototype) p else p);
          p = (if Description prototype \<noteq> []
               then addValue ''description'' (Description prototype) p else p);
          p = (if AccessLevel prototype \<noteq> []
               then addValue ''access_level'' (AccessLevel prototype) p else p);
          (response, e) = makePostRequest d w r p;
          w = w @ [POST r p]
      in if e \<noteq> None then ((List_zero, e), w)
         else
           let (e, l) = parseFromJSON d response List_zero
           in ((l, e), w))"

text \<open>\<^verbatim>\<open>UpdateMailingList\<close> (lines 228-252).\<close>

definition UpdateMailingList ::
  "deps \<Rightarrow> MailgunImpl \<Rightarrow> string \<Rightarrow> List \<Rightarrow> call list \<Rightarrow> (List \<times> error option) \<times> call list" where
  "UpdateMailingList d m addr prototype w =
     (let r = newHTTPRequest (generatePublicApiUrl d m (listsEndpoint d) @ ''/'' @ addr);
          r = setClient (client m) r;
          r = setBasicAuth (basicAuthUser d) (apiKey m) r;
          p = newUrlEncodedPayload;
          p = (if Address prototype \<noteq> [] then addValue ''address'' (Address prototype) p else p);
          p = (if Name prototype \<noteq> [] then addValue ''name'' (Name prototype) p else p);
          p = (if Description prototype \<noteq> []
               then addValue ''description'' (Description prototype) p else p);
          p = (if AccessLevel prototype \<noteq> []
               then addValue ''access_level'' (AccessLevel prototype) p else p);
          l = List_zero;
          (response, e) = makePutRequest d w r p;
          w = w @ [PUT r p]
      in if e \<noteq> None then ((l, e), w)
         else
           let (e, l) = parseFromJSON d response l
           in ((l, e), w))"

section \<open>The page fetcher of the specification\<close>

text \<open>
  Modelled from the spec: \<^verbatim>\<open>getResponseFromJSON\<close>, which \<^verbatim>\<open>fetch\<close> calls, is not in
  \<^verbatim>\<open>mailing_lists.go\<close>. The spec's page fetcher is \<^verbatim>\<open>fetch(url) -> Page | Error\<close>: on
  a transport failure, a non-2xx status or a malformed body it returns the error and
  "never partially mutates caller state on failure"; on success the decoded page and
  cursor replace the caller's. The server's answer to a request, given the calls before
  it, is the parameter.
\<close>

definition getResponseFromJSON_spec ::
  "(call list \<Rightarrow> httpRequest \<Rightarrow> error + listsResponse) \<Rightarrow>
   call list \<Rightarrow> httpRequest \<Rightarrow> listsResponse \<Rightarrow> error option \<times> listsResponse" where
  "getResponseFromJSON_spec server w r v =
     (case server w r of Inl e \<Rightarrow> (Some e, v) | Inr page \<Rightarrow> (None, page))"

text \<open>The collaborators \<open>d\<close> with the page fetcher of the specification over a server.\<close>

definition with_spec_fetcher ::
  "deps \<Rightarrow> (call list \<Rightarrow> httpRequest \<Rightarrow> error + listsResponse) \<Rightarrow> deps" where
  "with_spec_fetcher d server = d\<lparr>getResponseFromJSON := getResponseFromJSON_spec server\<rparr>"

section \<open>Concrete collaborators and inputs\<close>

text \<open>
  A client, collaborators whose server answers every request with the page \<open>page_a\<close>,
  and variants of them: one that answers every request with an empty page, one that fails
  every request and leaves the target as it was, and one whose URL builder fails.
\<close>

definition mg0 :: MailgunImpl where
  "mg0 = \<lparr>apiBase = ''https://api.mailgun.net/v3'', client = 0, apiKey = ''key-0''\<rparr>"

definition list_a :: List where
  "list_a =
     \<lparr>Address = ''a@example.com'', Name = ''A'', Description = [], AccessLevel = ''readonly'',
      CreatedAt = ''2016'', MembersCount = 2\<rparr>"

definition page_a :: listsResponse where
  "page_a =
     \<lparr>Lists = [list_a],
      Paging = \<lparr>First = ''https://api.mailgun.net/v3/lists/pages?page=first'',
                Next = ''https://api.mailgun.net/v3/lists/pages?page=next&address=a'',
                Previous = ''https://api.mailgun.net/v3/lists/pages?page=prev&address=a'',
                Last = ''https://api.mailgun.net/v3/lists/pages?page=last''\<rparr>\<rparr>"

definition page_empty :: listsResponse where
  "page_empty = page_a\<lparr>Lists := []\<rparr>"

definition deps_ok :: deps where
  "deps_ok =
     \<lparr>generatePublicApiUrl = (\<lambda>m endpoint. apiBase m @ ''/'' @ endpoint),
      listsEndpoint = ''lists'',
      basicAuthUser = ''api'',
      generateUrlWithParameters = (\<lambda>r. (URL r, None)),
      getResponseFromJSON = (\<lambda>w r v. (None, page_a)),
      makePostRequest = (\<lambda>w r p. (\<lparr>Code = 200, Data = []\<rparr>, None)),
      makePutRequest = (\<lambda>w r p. (\<lparr>Code = 200, Data = []\<rparr>, None)),
      parseFromJSON = (\<lambda>response l. (None, list_a))\<rparr>"

definition deps_empty :: deps where
  "deps_empty = deps_ok\<lparr>getResponseFromJSON := (\<lambda>w r v. (None, page_empty))\<rparr>"

definition deps_fail :: deps where
  "deps_fail = deps_ok\<lparr>getResponseFromJSON := (\<lambda>w r v. (Some (Error ''502''), v))\<rparr>"

text \<open>
  A server whose answers repeat, as their \<open>First\<close> URL, the one the iterator already
  holds.
\<close>

definition deps_same_first :: deps where
  "deps_same_first =
     deps_ok\<lparr>getResponseFromJSON :=
       (\<lambda>w r v. (None, page_a\<lparr>Paging := (Paging page_a)\<lparr>First := First (Paging v)\<rparr>\<rparr>))\<rparr>"

definition deps_badurl :: deps where
  "deps_badurl =
     deps_ok\<lparr>generateUrlWithParameters := (\<lambda>r. ([], Some (Error ''invalid URL'')))\<rparr>"

definition server_down :: "call list \<Rightarrow> httpRequest \<Rightarrow> error + listsResponse" where
  "server_down w r = Inl (Error ''502'')"

text \<open>
  The iterator just constructed with no options, one that has fetched \<open>page_a\<close>, and
  one in the failed state.
\<close>

definition s_fresh :: store where
  "s_fresh = \<lparr>li = fst (ListMailingLists deps_ok mg0 None []), items = [], sent = []\<rparr>"

definition s_fetched :: store where
  "s_fetched =
     \<lparr>li = \<lparr>Lists = Lists page_a, Paging = Paging page_a, mg = mg0, err = None\<rparr>,
      items = [list_a], sent = []\<rparr>"

definition s_failed :: store where
  "s_failed = s_fetched\<lparr>li := (li s_fetched)\<lparr>err := Some (Error ''502'')\<rparr>\<rparr>"

section \<open>Properties\<close>

subsection \<open>Shared facts\<close>

text \<open>
  What \<open>fetch\<close> leaves alone and what it adds: the caller's slice, the sticky error and
  the client are untouched, and exactly one GET request, for the given URL, reaches the
  transport.
\<close>

lemma fetch_frame:
  "fetch d url s = (e, s') \<Longrightarrow>
     items s' = items s \<and> err (li s') = err (li s) \<and> mg (li s') = mg (li s) \<and>
     (\<exists>r. sent s' = sent s @ [GET r] \<and> URL r = url)"
  by (auto simp: fetch_def Let_def newHTTPRequest_def setClient_def setBasicAuth_def
      split: prod.splits)

text \<open>
  \<open>fetch\<close> written out: the error it returns is the one \<^verbatim>\<open>getResponseFromJSON\<close> returns
  for the request built from the URL, the page and cursor afterwards are what that call
  left in the target, and the request is the one added to the calls sent.
\<close>

lemma fetch_result:
  "fetch d url s =
     (fst (getResponseFromJSON d (sent s)
         \<lparr>URL = url, Parameters = [], BasicAuthUser = basicAuthUser d,
          BasicAuthPassword = apiKey (mg (li s)), Client = Some (client (mg (li s)))\<rparr>
         (listsResponse.truncate (li s))),
      s\<lparr>li := (li s)
           \<lparr>Lists := Lists (snd (getResponseFromJSON d (sent s)
              \<lparr>URL = url, Parameters = [], BasicAuthUser = basicAuthUser d,
               BasicAuthPassword = apiKey (mg (li s)), Client = Some (client (mg (li s)))\<rparr>
              (listsResponse.truncate (li s)))),
            Paging := Paging (snd (getResponseFromJSON d (sent s)
              \<lparr>URL = url, Parameters = [], BasicAuthUser = basicAuthUser d,
               BasicAuthPassword = apiKey (mg (li s)), Client = Some (client (mg (li s)))\<rparr>
              (listsResponse.truncate (li s))))\<rparr>,
         sent := sent s @
           [GET \<lparr>URL = url, Parameters = [], BasicAuthUser = basicAuthUser d,
                 BasicAuthPassword = apiKey (mg (li s)), Client = Some (client (mg (li s)))\<rparr>]\<rparr>)"
  by (simp add: fetch_def Let_def split_beta newHTTPRequest_def setClient_def setBasicAuth_def)

lemma deps_fail_answer: "fst (getResponseFromJSON deps_fail w r v) = Some (Error ''502'')"
  by (simp add: deps_fail_def)

lemma deps_ok_answer: "fst (getResponseFromJSON deps_ok w r v) = None"
  by (simp add: deps_ok_def)

lemma failed_First: "err (li s) \<noteq> None \<Longrightarrow> ListsIterator_First d s = (False, s)"
  by (simp add: ListsIterator_First_def)

lemma failed_Next: "err (li s) \<noteq> None \<Longrightarrow> ListsIterator_Next d s = (False, s)"
  by (simp add: ListsIterator_Next_def)

lemma failed_Previous: "err (li s) \<noteq> None \<Longrightarrow> ListsIterator_Previous d s = (False, s)"
  by (simp add: ListsIterator_Previous_def)

lemma failed_Last: "err (li s) \<noteq> None \<Longrightarrow> ListsIterator_Last d s = (False, s)"
  by (simp add: ListsIterator_Last_def)

lemma s_failed_err: "err (li s_failed) = Some (Error ''502'')"
  by (simp add: s_failed_def)

lemma s_fetched_err: "err (li s_fetched) = None"
  by (simp add: s_fetched_def)

lemma s_fresh_err: "err (li s_fresh) = None"
  by (simp add: s_fresh_def ListMailingLists_def deps_ok_def)

subsection \<open>The failed state\<close>

text \<open>
  C1, as the code has it. When the sticky error is non-nil, \<^verbatim>\<open>First\<close>, \<^verbatim>\<open>Next\<close>,
  \<^verbatim>\<open>Previous\<close> and \<^verbatim>\<open>Last\<close> return false and leave the whole state as it was: the
  iterator with its error, the caller's slice, and the calls sent (no fetch).
  \<^verbatim>\<open>GetNext\<close> and \<^verbatim>\<open>GetPrevious\<close> do not read the sticky error: they send the request
  for the cursor's next or previous URL all the same, return the error that
  \<^verbatim>\<open>getResponseFromJSON\<close> returns for that request (nil when it succeeds), and leave
  the stored error as it was.
\<close>

theorem failed_state_navigation:
  "err (li s) \<noteq> None \<Longrightarrow>
     ListsIterator_First d s = (False, s) \<and>
     ListsIterator_Next d s = (False, s) \<and>
     ListsIterator_Previous d s = (False, s) \<and>
     ListsIterator_Last d s = (False, s) \<and>
     err (li (snd (ListsIterator_GetNext d s))) = err (li s) \<and>
     (\<exists>r. sent (snd (ListsIterator_GetNext d s)) = sent s @ [GET r] \<and>
          URL r = Next (Paging (li s))) \<and>
     err (li (snd (ListsIterator_GetPrevious d s))) = err (li s) \<and>
     (\<exists>r. sent (snd (ListsIterator_GetPrevious d s)) = sent s @ [GET r] \<and>
          URL r = Previous (Paging (li s))) \<and>
     fst (ListsIterator_GetNext d s) =
       fst (getResponseFromJSON d (sent s)
         \<lparr>URL = Next (Paging (li s)), Parameters = [], BasicAuthUser = basicAuthUser d,
          BasicAuthPassword = apiKey (mg (li s)), Client = Some (client (mg (li s)))\<rparr>
         (listsResponse.truncate (li s))) \<and>
     sent (snd (ListsIterator_GetNext d s)) =
       sent s @
       [GET \<lparr>URL = Next (Paging (li s)), Parameters = [], BasicAuthUser = basicAuthUser d,
             BasicAuthPassword = apiKey (mg (li s)), Client = Some (client (mg (li s)))\<rparr>] \<and>
     fst (ListsIterator_GetPrevious d s) =
       fst (getResponseFromJSON d (sent s)
         \<lparr>URL = Previous (Paging (li s)), Parameters = [], BasicAuthUser = basicAuthUser d,
          BasicAuthPassword = apiKey (mg (li s)), Client = Some (client (mg (li s)))\<rparr>
         (listsResponse.truncate (li s))) \<and>
     sent (snd (ListsIterator_GetPrevious d s)) =
       sent s @
       [GET \<lparr>URL = Previous (Paging (li s)), Parameters = [], BasicAuthUser = basicAuthUser d,
             BasicAuthPassword = apiKey (mg (li s)), Client = Some (client (mg (li s)))\<rparr>]"
proof -
  assume e: "err (li s) \<noteq> None"
  have b: "ListsIterator_First d s = (False, s) \<and>
     ListsIterator_Next d s = (False, s) \<and>
     ListsIterator_Previous d s = (False, s) \<and>
     ListsIterator_Last d s = (False, s)"
    using e by (simp add: failed_First failed_Next failed_Previous failed_Last)
  have n: "err (li (snd (ListsIterator_GetNext d s))) = err (li s) \<and>
     (\<exists>r. sent (snd (ListsIterator_GetNext d s)) = sent s @ [GET r] \<and>
          URL r = Next (Paging (li s)))"
    using fetch_frame [of d "Next (Paging (li s))" s]
    by (simp add: ListsIterator_GetNext_def prod_eq_iff)
  have p: "err (li (snd (ListsIterator_GetPrevious d s))) = err (li s) \<and>
     (\<exists>r. sent (snd (ListsIterator_GetPrevious d s)) = sent s @ [GET r] \<and>
          URL r = Previous (Paging (li s)))"
    using fetch_frame [of d "Previous (Paging (li s))" s]
    by (simp add: ListsIterator_GetPrevious_def prod_eq_iff)
  have n': "fst (ListsIterator_GetNext d s) =
       fst (getResponseFromJSON d (sent s)
         \<lparr>URL = Next (Paging (li s)), Parameters = [], BasicAuthUser = basicAuthUser d,
          BasicAuthPassword = apiKey (mg (li s)), Client = Some (client (mg (li s)))\<rparr>
         (listsResponse.truncate (li s))) \<and>
     sent (snd (ListsIterator_GetNext d s)) =
       sent s @
       [GET \<lparr>URL = Next (Paging (li s)), Parameters = [], BasicAuthUser = basicAuthUser d,
             BasicAuthPassword = apiKey (mg (li s)), Client = Some (client (mg (li s)))\<rparr>]"
    by (simp add: ListsIterator_GetNext_def fetch_result)
  have p': "fst (ListsIterator_GetPrevious d s) =
       fst (getResponseFromJSON d (sent s)
         \<lparr>URL = Previous (Paging (li s)), Parameters = [], BasicAuthUser = basicAuthUser d,
          BasicAuthPassword = apiKey (mg (li s)), Client = Some (client (mg (li s)))\<rparr>
         (listsResponse.truncate (li s))) \<and>
     sent (snd (ListsIterator_GetPrevious d s)) =
       sent s @
       [GET \<lparr>URL = Previous (Paging (li s)), Parameters = [], BasicAuthUser = basicAuthUser d,
             BasicAuthPassword = apiKey (mg (li s)), Client = Some (client (mg (li s)))\<rparr>]"
    by (simp add: ListsIterator_GetPrevious_def fetch_result)
  from b n p n' p' show ?thesis
    by blast
qed

theorem failed_state_navigation_witness:
  "err (li s_failed) \<noteq> None \<and>
   ListsIterator_First deps_ok s_failed = (False, s_failed) \<and>
   ListsIterator_Next deps_ok s_failed = (False, s_failed) \<and>
   ListsIterator_Previous deps_ok s_failed = (False, s_failed) \<and>
   ListsIterator_Last deps_ok s_failed = (False, s_failed) \<and>
   err (li (snd (ListsIterator_GetNext deps_ok s_failed))) = Some (Error ''502'') \<and>
   err (li (snd (ListsIterator_GetPrevious deps_ok s_failed))) = Some (Error ''502'') \<and>
   fst (ListsIterator_GetNext deps_ok s_failed) = None \<and>
   fst (ListsIterator_GetPrevious deps_ok s_failed) = None \<and>
   fst (ListsIterator_GetNext deps_fail s_failed) = Some (Error ''502'') \<and>
   fst (ListsIterator_GetPrevious deps_fail s_failed) = Some (Error ''502'')"
proof -
  have e: "err (li s_failed) \<noteq> None"
    by (simp add: s_failed_err)
  from failed_state_navigation [OF e, of deps_ok] failed_state_navigation [OF e, of deps_fail] e
  show ?thesis
    by (simp add: s_failed_err deps_fail_answer deps_ok_answer)
qed

text \<open>
  C1 as stated fails for \<^verbatim>\<open>GetNext\<close>: on an iterator in the failed state, against a
  server that answers, the call sends a request and returns the nil error.
\<close>

theorem failed_GetNext_fetches:
  "err (li s_failed) = Some (Error ''502'') \<and>
   fst (ListsIterator_GetNext deps_ok s_failed) = None \<and>
   sent s_failed = [] \<and>
   map (URL \<circ> request_of) (sent (snd (ListsIterator_GetNext deps_ok s_failed))) =
     [''https://api.mailgun.net/v3/lists/pages?page=next&address=a'']"
  by (simp add: s_failed_def s_fetched_def page_a_def ListsIterator_GetNext_def fetch_def
      deps_ok_def newHTTPRequest_def setClient_def setBasicAuth_def)

subsection \<open>Construction\<close>

text \<open>
  C4. For every options value (nil, or any limit), constructing an iterator sends nothing
  to the transport, and the iterator's cursor has \<open>First\<close> and \<open>Next\<close> both equal to the
  starting URL (the URL that \<^verbatim>\<open>generateUrlWithParameters\<close> returns for the request
  built), \<open>Previous\<close> and \<open>Last\<close> empty, and no items.
\<close>

theorem construction_unfetched:
  "snd (ListMailingLists d m opts w) = w \<and>
   Lists (fst (ListMailingLists d m opts w)) = [] \<and>
   Paging (fst (ListMailingLists d m opts w)) =
     \<lparr>First = fst (generateUrlWithParameters d (ListMailingLists_r d m opts)),
      Next = fst (generateUrlWithParameters d (ListMailingLists_r d m opts)),
      Previous = [], Last = []\<rparr>"
  by (simp add: ListMailingLists_def split: prod.splits)

subsection \<open>Previous at the first page\<close>

text \<open>
  C6. When the sticky error is nil and the cursor's \<open>Previous\<close> field is the empty
  string, \<^verbatim>\<open>Previous\<close> returns false and the whole state is as before: no request is
  sent, and the page, the cursor, the error and the caller's slice are unchanged.
\<close>

theorem Previous_without_previous_page:
  "err (li s) = None \<Longrightarrow> Previous (Paging (li s)) = [] \<Longrightarrow>
     ListsIterator_Previous d s = (False, s)"
  by (simp add: ListsIterator_Previous_def)

theorem Previous_without_previous_page_witness:
  "err (li s_fresh) = None \<and> Previous (Paging (li s_fresh)) = [] \<and>
   ListsIterator_Previous deps_ok s_fresh = (False, s_fresh)"
proof -
  have e: "err (li s_fresh) = None"
    by (rule s_fresh_err)
  have p: "Previous (Paging (li s_fresh)) = []"
    by (simp add: s_fresh_def ListMailingLists_def deps_ok_def)
  from e p Previous_without_previous_page [OF e p, of deps_ok] show ?thesis
    by simp
qed

subsection \<open>The boolean methods in terms of fetch\<close>

text \<open>
  With a nil sticky error each boolean method is its fetch followed by the bookkeeping:
  on an error the error is stored and the call returns false; otherwise the caller's
  slice receives the page.
\<close>

lemma First_unfold:
  "err (li s) = None \<Longrightarrow>
   ListsIterator_First d s =
     (case fetch d (First (Paging (li s))) s of
        (None, s1) \<Rightarrow> (True, s1\<lparr>items := Lists (li s1)\<rparr>)
      | (Some e, s1) \<Rightarrow> (False, s1\<lparr>li := (li s1)\<lparr>err := Some e\<rparr>\<rparr>))"
  using fetch_frame [of d "First (Paging (li s))" s]
  by (auto simp: ListsIterator_First_def Let_def split: prod.splits option.splits)

lemma Last_unfold:
  "err (li s) = None \<Longrightarrow>
   ListsIterator_Last d s =
     (case fetch d (Last (Paging (li s))) s of
        (None, s1) \<Rightarrow> (True, s1\<lparr>items := Lists (li s1)\<rparr>)
      | (Some e, s1) \<Rightarrow> (False, s1\<lparr>li := (li s1)\<lparr>err := Some e\<rparr>\<rparr>))"
  using fetch_frame [of d "Last (Paging (li s))" s]
  by (auto simp: ListsIterator_Last_def Let_def split: prod.splits option.splits)

lemma Next_unfold:
  "err (li s) = None \<Longrightarrow>
   ListsIterator_Next d s =
     (case fetch d (Next (Paging (li s))) s of
        (None, s1) \<Rightarrow> (Lists (li s1) \<noteq> [], s1\<lparr>items := Lists (li s1)\<rparr>)
      | (Some e, s1) \<Rightarrow> (False, s1\<lparr>li := (li s1)\<lparr>err := Some e\<rparr>\<rparr>))"
  using fetch_frame [of d "Next (Paging (li s))" s]
  by (auto simp: ListsIterator_Next_def Let_def split: prod.splits option.splits)

lemma Previous_unfold:
  "err (li s) = None \<Longrightarrow> Previous (Paging (li s)) \<noteq> [] \<Longrightarrow>
   ListsIterator_Previous d s =
     (case fetch d (Previous (Paging (li s))) s of
        (None, s1) \<Rightarrow> (Lists (li s1) \<noteq> [], s1\<lparr>items := Lists (li s1)\<rparr>)
      | (Some e, s1) \<Rightarrow> (False, s1\<lparr>li := (li s1)\<lparr>err := Some e\<rparr>\<rparr>))"
  using fetch_frame [of d "Previous (Paging (li s))" s]
  by (auto simp: ListsIterator_Previous_def Let_def split: prod.splits option.splits)

text \<open>What the concrete servers answer to the iterator that has fetched \<open>page_a\<close>.\<close>

lemma fetch_deps_fail: "fetch deps_fail url s_fetched =
  (Some (Error ''502''), s_fetched\<lparr>sent := [GET \<lparr>URL = url, Parameters = [], BasicAuthUser = ''api'',
     BasicAuthPassword = ''key-0'', Client = Some 0\<rparr>]\<rparr>)"
  by (simp add: fetch_def deps_fail_def deps_ok_def s_fetched_def listsResponse.truncate_def
      newHTTPRequest_def setClient_def setBasicAuth_def mg0_def)


lemma fetch_deps_empty: "fetch deps_empty url s_fetched =
  (None, s_fetched\<lparr>li := (li s_fetched)\<lparr>Lists := []\<rparr>,
     sent := [GET \<lparr>URL = url, Parameters = [], BasicAuthUser = ''api'',
     BasicAuthPassword = ''key-0'', Client = Some 0\<rparr>]\<rparr>)"
  by (simp add: fetch_def deps_empty_def deps_ok_def s_fetched_def page_empty_def
      newHTTPRequest_def setClient_def setBasicAuth_def mg0_def)

lemma s_fetched_Paging: "Paging (li s_fetched) = Paging page_a"
  by (simp add: s_fetched_def)

lemma page_a_Previous: "Previous (Paging page_a) \<noteq> []"
  by (simp add: page_a_def)

lemma s_fresh_Paging:
  "Paging (li s_fresh) =
     \<lparr>First = ''https://api.mailgun.net/v3/lists/pages'',
      Next = ''https://api.mailgun.net/v3/lists/pages'', Previous = [], Last = []\<rparr>"
  by (simp add: s_fresh_def ListMailingLists_def ListMailingLists_r_def deps_ok_def mg0_def
      newHTTPRequest_def setClient_def setBasicAuth_def)

lemma s_fresh_sent: "sent s_fresh = []"
  by (simp add: s_fresh_def)

lemma s_fetched_sent: "sent s_fetched = []"
  by (simp add: s_fetched_def)

text \<open>Every fetch sends exactly one GET request, for the URL it was given.\<close>

lemma fetch_sent:
  "\<exists>r. sent (snd (fetch d url s)) = sent s @ [GET r] \<and> URL r = url"
  using fetch_frame [of d url s "fst (fetch d url s)" "snd (fetch d url s)"]
  by simp

lemma First_sent:
  "err (li s) = None \<Longrightarrow>
     sent (snd (ListsIterator_First d s)) = sent (snd (fetch d (First (Paging (li s))) s))"
  by (simp add: First_unfold split: prod.splits option.splits)

lemma Next_sent:
  "err (li s) = None \<Longrightarrow>
     sent (snd (ListsIterator_Next d s)) = sent (snd (fetch d (Next (Paging (li s))) s))"
  by (simp add: Next_unfold split: prod.splits option.splits)

lemma Last_sent:
  "err (li s) = None \<Longrightarrow>
     sent (snd (ListsIterator_Last d s)) = sent (snd (fetch d (Last (Paging (li s))) s))"
  by (simp add: Last_unfold split: prod.splits option.splits)

lemma Previous_sent:
  "err (li s) = None \<Longrightarrow> Previous (Paging (li s)) \<noteq> [] \<Longrightarrow>
     sent (snd (ListsIterator_Previous d s)) = sent (snd (fetch d (Previous (Paging (li s))) s))"
  by (simp add: Previous_unfold split: prod.splits option.splits)

lemma sent_First:
  "err (li s) = None \<Longrightarrow>
     \<exists>r. sent (snd (ListsIterator_First d s)) = sent s @ [GET r] \<and> URL r = First (Paging (li s))"
  by (simp only: First_sent fetch_sent)

lemma sent_Next:
  "err (li s) = None \<Longrightarrow>
     \<exists>r. sent (snd (ListsIterator_Next d s)) = sent s @ [GET r] \<and> URL r = Next (Paging (li s))"
  by (simp only: Next_sent fetch_sent)

lemma sent_Last:
  "err (li s) = None \<Longrightarrow>
     \<exists>r. sent (snd (ListsIterator_Last d s)) = sent s @ [GET r] \<and> URL r = Last (Paging (li s))"
  by (simp only: Last_sent fetch_sent)

lemma sent_Previous:
  "err (li s) = None \<Longrightarrow> Previous (Paging (li s)) \<noteq> [] \<Longrightarrow>
     \<exists>r. sent (snd (ListsIterator_Previous d s)) = sent s @ [GET r] \<and>
         URL r = Previous (Paging (li s))"
  using Previous_sent [of s d] fetch_sent [of d "Previous (Paging (li s))" s]
  by simp

lemma sent_GetNext:
  "\<exists>r. sent (snd (ListsIterator_GetNext d s)) = sent s @ [GET r] \<and> URL r = Next (Paging (li s))"
  by (simp only: ListsIterator_GetNext_def fetch_sent)

lemma sent_GetPrevious:
  "\<exists>r. sent (snd (ListsIterator_GetPrevious d s)) = sent s @ [GET r] \<and>
       URL r = Previous (Paging (li s))"
  by (simp only: ListsIterator_GetPrevious_def fetch_sent)

subsection \<open>Where a fetch error goes\<close>

text \<open>
  C2, as the code has it. When the fetch of \<^verbatim>\<open>First\<close>, \<^verbatim>\<open>Next\<close>, \<^verbatim>\<open>Previous\<close> or
  \<^verbatim>\<open>Last\<close> returns an error, the error becomes the sticky error, readable through
  \<^verbatim>\<open>Err()\<close>, and the call returns false. When the fetch of \<^verbatim>\<open>GetNext\<close> or
  \<^verbatim>\<open>GetPrevious\<close> returns an error, the call returns that error and the sticky error
  stays what it was.
\<close>

theorem fetch_error_reporting:
  "(err (li s) = None \<and> fst (fetch d (First (Paging (li s))) s) = Some e \<longrightarrow>
      fst (ListsIterator_First d s) = False \<and>
      ListsIterator_Err (li (snd (ListsIterator_First d s))) = Some e) \<and>
   (err (li s) = None \<and> fst (fetch d (Next (Paging (li s))) s) = Some e \<longrightarrow>
      fst (ListsIterator_Next d s) = False \<and>
      ListsIterator_Err (li (snd (ListsIterator_Next d s))) = Some e) \<and>
   (err (li s) = None \<and> Previous (Paging (li s)) \<noteq> [] \<and>
    fst (fetch d (Previous (Paging (li s))) s) = Some e \<longrightarrow>
      fst (ListsIterator_Previous d s) = False \<and>
      ListsIterator_Err (li (snd (ListsIterator_Previous d s))) = Some e) \<and>
   (err (li s) = None \<and> fst (fetch d (Last (Paging (li s))) s) = Some e \<longrightarrow>
      fst (ListsIterator_Last d s) = False \<and>
      ListsIterator_Err (li (snd (ListsIterator_Last d s))) = Some e) \<and>
   (fst (fetch d (Next (Paging (li s))) s) = Some e \<longrightarrow>
      fst (ListsIterator_GetNext d s) = Some e \<and>
      ListsIterator_Err (li (snd (ListsIterator_GetNext d s))) = ListsIterator_Err (li s)) \<and>
   (fst (fetch d (Previous (Paging (li s))) s) = Some e \<longrightarrow>
      fst (ListsIterator_GetPrevious d s) = Some e \<and>
      ListsIterator_Err (li (snd (ListsIterator_GetPrevious d s))) = ListsIterator_Err (li s))"
  using fetch_frame [of d "Next (Paging (li s))" s]
    fetch_frame [of d "Previous (Paging (li s))" s]
  by (auto simp: First_unfold Next_unfold Previous_unfold Last_unfold ListsIterator_Err_def
      ListsIterator_GetNext_def ListsIterator_GetPrevious_def prod_eq_iff
      split: prod.splits option.splits)

theorem fetch_error_reporting_witness:
  "err (li s_fetched) = None \<and> Previous (Paging (li s_fetched)) \<noteq> [] \<and>
   fst (fetch deps_fail (First (Paging (li s_fetched))) s_fetched) = Some (Error ''502'') \<and>
   fst (fetch deps_fail (Next (Paging (li s_fetched))) s_fetched) = Some (Error ''502'') \<and>
   fst (fetch deps_fail (Previous (Paging (li s_fetched))) s_fetched) = Some (Error ''502'') \<and>
   fst (fetch deps_fail (Last (Paging (li s_fetched))) s_fetched) = Some (Error ''502'') \<and>
   fst (ListsIterator_First deps_fail s_fetched) = False \<and>
   ListsIterator_Err (li (snd (ListsIterator_First deps_fail s_fetched))) = Some (Error ''502'') \<and>
   fst (ListsIterator_Next deps_fail s_fetched) = False \<and>
   ListsIterator_Err (li (snd (ListsIterator_Next deps_fail s_fetched))) = Some (Error ''502'') \<and>
   fst (ListsIterator_Previous deps_fail s_fetched) = False \<and>
   ListsIterator_Err (li (snd (ListsIterator_Previous deps_fail s_fetched))) =
     Some (Error ''502'') \<and>
   fst (ListsIterator_Last deps_fail s_fetched) = False \<and>
   ListsIterator_Err (li (snd (ListsIterator_Last deps_fail s_fetched))) = Some (Error ''502'') \<and>
   fst (ListsIterator_GetNext deps_fail s_fetched) = Some (Error ''502'') \<and>
   fst (ListsIterator_GetPrevious deps_fail s_fetched) = Some (Error ''502'')"
proof -
  have p: "Previous (Paging (li s_fetched)) \<noteq> []"
    by (simp add: s_fetched_Paging page_a_Previous)
  from fetch_error_reporting [of s_fetched deps_fail "Error ''502''"] p show ?thesis
    by (simp add: s_fetched_err fetch_deps_fail)
qed

text \<open>
  C2 as stated fails for \<^verbatim>\<open>GetNext\<close>: the fetch fails, the call returns the error,
  and \<^verbatim>\<open>Err()\<close> is still nil afterwards.
\<close>

theorem GetNext_error_not_stored:
  "ListsIterator_Err (li s_fetched) = None \<and>
   fst (fetch deps_fail (Next (Paging (li s_fetched))) s_fetched) = Some (Error ''502'') \<and>
   fst (ListsIterator_GetNext deps_fail s_fetched) = Some (Error ''502'') \<and>
   ListsIterator_Err (li (snd (ListsIterator_GetNext deps_fail s_fetched))) = None"
  by (simp add: ListsIterator_GetNext_def fetch_deps_fail ListsIterator_Err_def s_fetched_err)

subsection \<open>Empty pages\<close>

text \<open>
  C5. When the sticky error is nil and the fetch succeeds with an empty items page,
  \<^verbatim>\<open>Next\<close> and \<^verbatim>\<open>Previous\<close> return false, while \<^verbatim>\<open>First\<close> returns true and hands
  the caller zero items.
\<close>

theorem empty_page_results:
  "(err (li s) = None \<and> fst (fetch d (Next (Paging (li s))) s) = None \<and>
    Lists (li (snd (fetch d (Next (Paging (li s))) s))) = [] \<longrightarrow>
      fst (ListsIterator_Next d s) = False) \<and>
   (err (li s) = None \<and> fst (fetch d (Previous (Paging (li s))) s) = None \<and>
    Lists (li (snd (fetch d (Previous (Paging (li s))) s))) = [] \<longrightarrow>
      fst (ListsIterator_Previous d s) = False) \<and>
   (err (li s) = None \<and> fst (fetch d (First (Paging (li s))) s) = None \<and>
    Lists (li (snd (fetch d (First (Paging (li s))) s))) = [] \<longrightarrow>
      fst (ListsIterator_First d s) = True \<and>
      items (snd (ListsIterator_First d s)) = [] \<and>
      Lists (li (snd (ListsIterator_First d s))) = [])"
proof (intro conjI impI)
  assume "err (li s) = None \<and> fst (fetch d (Next (Paging (li s))) s) = None \<and>
    Lists (li (snd (fetch d (Next (Paging (li s))) s))) = []"
  then show "fst (ListsIterator_Next d s) = False"
    by (auto simp: Next_unfold split: prod.splits option.splits)
next
  assume a: "err (li s) = None \<and> fst (fetch d (Previous (Paging (li s))) s) = None \<and>
    Lists (li (snd (fetch d (Previous (Paging (li s))) s))) = []"
  show "fst (ListsIterator_Previous d s) = False"
  proof (cases "Previous (Paging (li s)) = []")
    case True
    with a show ?thesis by (simp add: ListsIterator_Previous_def)
  next
    case False
    with a show ?thesis by (auto simp: Previous_unfold split: prod.splits option.splits)
  qed
next
  assume a: "err (li s) = None \<and> fst (fetch d (First (Paging (li s))) s) = None \<and>
    Lists (li (snd (fetch d (First (Paging (li s))) s))) = []"
  then show "fst (ListsIterator_First d s) = True"
    by (auto simp: First_unfold split: prod.splits option.splits)
  from a show "items (snd (ListsIterator_First d s)) = []"
    by (auto simp: First_unfold split: prod.splits option.splits)
  from a show "Lists (li (snd (ListsIterator_First d s))) = []"
    by (auto simp: First_unfold split: prod.splits option.splits)
qed

theorem empty_page_results_witness:
  "err (li s_fetched) = None \<and>
   fst (fetch deps_empty (Next (Paging (li s_fetched))) s_fetched) = None \<and>
   Lists (li (snd (fetch deps_empty (Next (Paging (li s_fetched))) s_fetched))) = [] \<and>
   fst (fetch deps_empty (Previous (Paging (li s_fetched))) s_fetched) = None \<and>
   Lists (li (snd (fetch deps_empty (Previous (Paging (li s_fetched))) s_fetched))) = [] \<and>
   fst (fetch deps_empty (First (Paging (li s_fetched))) s_fetched) = None \<and>
   Lists (li (snd (fetch deps_empty (First (Paging (li s_fetched))) s_fetched))) = [] \<and>
   fst (ListsIterator_Next deps_empty s_fetched) = False \<and>
   fst (ListsIterator_Previous deps_empty s_fetched) = False \<and>
   fst (ListsIterator_First deps_empty s_fetched) = True \<and>
   items (snd (ListsIterator_First deps_empty s_fetched)) = []"
  using empty_page_results [of s_fetched deps_empty]
  by (simp add: s_fetched_err fetch_deps_empty)

subsection \<open>Empty target URLs\<close>

text \<open>
  C7, as the code has it. Only \<^verbatim>\<open>Previous\<close> looks at its target before fetching:
  with a nil sticky error and an empty \<open>Previous\<close> field it sends nothing. \<^verbatim>\<open>First\<close>,
  \<^verbatim>\<open>Next\<close> and \<^verbatim>\<open>Last\<close> (with a nil sticky error), and \<^verbatim>\<open>GetNext\<close> and
  \<^verbatim>\<open>GetPrevious\<close> (always), send a GET request for the value of their cursor field,
  whatever it is, the empty string included.
\<close>

theorem only_Previous_guards_empty_url:
  "(err (li s) = None \<longrightarrow>
      (\<exists>r. sent (snd (ListsIterator_First d s)) = sent s @ [GET r] \<and>
           URL r = First (Paging (li s))) \<and>
      (\<exists>r. sent (snd (ListsIterator_Next d s)) = sent s @ [GET r] \<and>
           URL r = Next (Paging (li s))) \<and>
      (\<exists>r. sent (snd (ListsIterator_Last d s)) = sent s @ [GET r] \<and>
           URL r = Last (Paging (li s))) \<and>
      (Previous (Paging (li s)) = [] \<longrightarrow> sent (snd (ListsIterator_Previous d s)) = sent s) \<and>
      (Previous (Paging (li s)) \<noteq> [] \<longrightarrow>
         (\<exists>r. sent (snd (ListsIterator_Previous d s)) = sent s @ [GET r] \<and>
              URL r = Previous (Paging (li s))))) \<and>
   (\<exists>r. sent (snd (ListsIterator_GetNext d s)) = sent s @ [GET r] \<and>
        URL r = Next (Paging (li s))) \<and>
   (\<exists>r. sent (snd (ListsIterator_GetPrevious d s)) = sent s @ [GET r] \<and>
        URL r = Previous (Paging (li s)))"
proof (intro conjI impI)
  assume e: "err (li s) = None"
  show "\<exists>r. sent (snd (ListsIterator_First d s)) = sent s @ [GET r] \<and>
           URL r = First (Paging (li s))"
    by (rule sent_First [OF e])
  show "\<exists>r. sent (snd (ListsIterator_Next d s)) = sent s @ [GET r] \<and>
           URL r = Next (Paging (li s))"
    by (rule sent_Next [OF e])
  show "\<exists>r. sent (snd (ListsIterator_Last d s)) = sent s @ [GET r] \<and>
           URL r = Last (Paging (li s))"
    by (rule sent_Last [OF e])
  show "sent (snd (ListsIterator_Previous d s)) = sent s" if "Previous (Paging (li s)) = []"
    using e that by (simp add: ListsIterator_Previous_def)
  show "\<exists>r. sent (snd (ListsIterator_Previous d s)) = sent s @ [GET r] \<and>
           URL r = Previous (Paging (li s))" if "Previous (Paging (li s)) \<noteq> []"
    by (rule sent_Previous [OF e that])
next
  show "\<exists>r. sent (snd (ListsIterator_GetNext d s)) = sent s @ [GET r] \<and>
          URL r = Next (Paging (li s))"
    by (rule sent_GetNext)
  show "\<exists>r. sent (snd (ListsIterator_GetPrevious d s)) = sent s @ [GET r] \<and>
          URL r = Previous (Paging (li s))"
    by (rule sent_GetPrevious)
qed

theorem only_Previous_guards_empty_url_witness:
  "err (li s_fresh) = None \<and> Previous (Paging (li s_fresh)) = [] \<and>
   Last (Paging (li s_fresh)) = [] \<and>
   sent (snd (ListsIterator_Previous deps_ok s_fresh)) = sent s_fresh \<and>
   map (URL \<circ> request_of) (sent (snd (ListsIterator_GetPrevious deps_ok s_fresh))) = [[]] \<and>
   map (URL \<circ> request_of) (sent (snd (ListsIterator_First deps_ok s_fresh))) =
     [''https://api.mailgun.net/v3/lists/pages''] \<and>
   err (li s_fetched) = None \<and> Previous (Paging (li s_fetched)) \<noteq> [] \<and>
   map (URL \<circ> request_of) (sent (snd (ListsIterator_Previous deps_ok s_fetched))) =
     [''https://api.mailgun.net/v3/lists/pages?page=prev&address=a'']"
proof -
  note t = only_Previous_guards_empty_url [of s_fresh deps_ok]
  note t' = only_Previous_guards_empty_url [of s_fetched deps_ok]
  have p: "Previous (Paging (li s_fresh)) = []" and l: "Last (Paging (li s_fresh)) = []"
    by (simp_all add: s_fresh_Paging)
  have p': "Previous (Paging (li s_fetched)) \<noteq> []"
    by (simp add: s_fetched_Paging page_a_Previous)
  from t s_fresh_err p
  have a: "sent (snd (ListsIterator_Previous deps_ok s_fresh)) = sent s_fresh"
    by blast
  from t obtain r where "sent (snd (ListsIterator_GetPrevious deps_ok s_fresh)) =
      sent s_fresh @ [GET r]" and "URL r = Previous (Paging (li s_fresh))"
    by blast
  then have b: "map (URL \<circ> request_of) (sent (snd (ListsIterator_GetPrevious deps_ok s_fresh))) =
      [[]]"
    by (simp add: p s_fresh_sent)
  from t s_fresh_err obtain r' where "sent (snd (ListsIterator_First deps_ok s_fresh)) =
      sent s_fresh @ [GET r']" and "URL r' = First (Paging (li s_fresh))"
    by blast
  then have c: "map (URL \<circ> request_of) (sent (snd (ListsIterator_First deps_ok s_fresh))) =
      [''https://api.mailgun.net/v3/lists/pages'']"
    by (simp add: s_fresh_Paging s_fresh_sent)
  from t' s_fetched_err p' obtain q where "sent (snd (ListsIterator_Previous deps_ok s_fetched)) =
      sent s_fetched @ [GET q]" and "URL q = Previous (Paging (li s_fetched))"
    by blast
  then have d: "map (URL \<circ> request_of) (sent (snd (ListsIterator_Previous deps_ok s_fetched))) =
      [''https://api.mailgun.net/v3/lists/pages?page=prev&address=a'']"
    by (simp add: s_fetched_Paging s_fetched_sent page_a_def)
  from s_fresh_err p l a b c s_fetched_err p' d show ?thesis
    by blast
qed

text \<open>
  C7 as stated fails for \<^verbatim>\<open>Last\<close>: called on the iterator just constructed, whose
  \<open>Last\<close> field is empty, it sends a GET request for the empty URL.
\<close>

theorem Last_before_any_fetch_sends_empty_url:
  "err (li s_fresh) = None \<and> Last (Paging (li s_fresh)) = [] \<and> sent s_fresh = [] \<and>
   map (URL \<circ> request_of) (sent (snd (ListsIterator_Last deps_ok s_fresh))) = [[]]"
  by (simp add: s_fresh_err s_fresh_Paging s_fresh_sent Last_unfold fetch_def deps_ok_def
      newHTTPRequest_def setClient_def setBasicAuth_def)

subsection \<open>The payload of create and update\<close>

text \<open>
  C8. \<^verbatim>\<open>CreateMailingList\<close> sends one POST and \<^verbatim>\<open>UpdateMailingList\<close> one PUT, and
  the payload of each is exactly the non-empty ones among the prototype's address, name,
  description and access level, under the keys \<^verbatim>\<open>address\<close>, \<^verbatim>\<open>name\<close>,
  \<^verbatim>\<open>description\<close> and \<^verbatim>\<open>access_level\<close>, in this order: a field is in the payload if
  and only if it is a non-empty string, and nothing else of the prototype is sent. The
  request carries nothing of the prototype: its URL is the lists endpoint (followed by
  the address argument for an update), it has no query parameters, and its credentials
  and client are the receiver's. This request and this payload are what
  \<^verbatim>\<open>makePostRequest\<close> and \<^verbatim>\<open>makePutRequest\<close> are given, and the result of the call is
  built from their answer.
\<close>

theorem prototype_payload:
  "snd (CreateMailingList d m prototype w) =
     w @ [POST \<lparr>URL = generatePublicApiUrl d m (listsEndpoint d), Parameters = [],
                 BasicAuthUser = basicAuthUser d, BasicAuthPassword = apiKey m,
                 Client = Some (client m)\<rparr>
               (filter (\<lambda>kv. snd kv \<noteq> [])
                  [(''address'', Address prototype), (''name'', Name prototype),
                   (''description'', Description prototype),
                   (''access_level'', AccessLevel prototype)])] \<and>
   snd (UpdateMailingList d m addr prototype w) =
     w @ [PUT \<lparr>URL = generatePublicApiUrl d m (listsEndpoint d) @ ''/'' @ addr, Parameters = [],
                BasicAuthUser = basicAuthUser d, BasicAuthPassword = apiKey m,
                Client = Some (client m)\<rparr>
              (filter (\<lambda>kv. snd kv \<noteq> [])
                 [(''address'', Address prototype), (''name'', Name prototype),
                  (''description'', Description prototype),
                  (''access_level'', AccessLevel prototype)])] \<and>
   fst (CreateMailingList d m prototype w) =
     (let (response, e) = makePostRequest d w
            \<lparr>URL = generatePublicApiUrl d m (listsEndpoint d), Parameters = [],
             BasicAuthUser = basicAuthUser d, BasicAuthPassword = apiKey m,
             Client = Some (client m)\<rparr>
            (filter (\<lambda>kv. snd kv \<noteq> [])
               [(''address'', Address prototype), (''name'', Name prototype),
                (''description'', Description prototype),
                (''access_level'', AccessLevel prototype)])
      in if e \<noteq> None then (List_zero, e)
         else (snd (parseFromJSON d response List_zero),
               fst (parseFromJSON d response List_zero))) \<and>
   fst (UpdateMailingList d m addr prototype w) =
     (let (response, e) = makePutRequest d w
            \<lparr>URL = generatePublicApiUrl d m (listsEndpoint d) @ ''/'' @ addr, Parameters = [],
             BasicAuthUser = basicAuthUser d, BasicAuthPassword = apiKey m,
             Client = Some (client m)\<rparr>
            (filter (\<lambda>kv. snd kv \<noteq> [])
               [(''address'', Address prototype), (''name'', Name prototype),
                (''description'', Description prototype),
                (''access_level'', AccessLevel prototype)])
      in if e \<noteq> None then (List_zero, e)
         else (snd (parseFromJSON d response List_zero),
               fst (parseFromJSON d response List_zero)))"
proof (intro conjI)
  show "snd (CreateMailingList d m prototype w) =
     w @ [POST \<lparr>URL = generatePublicApiUrl d m (listsEndpoint d), Parameters = [],
                 BasicAuthUser = basicAuthUser d, BasicAuthPassword = apiKey m,
                 Client = Some (client m)\<rparr>
               (filter (\<lambda>kv. snd kv \<noteq> [])
                  [(''address'', Address prototype), (''name'', Name prototype),
                   (''description'', Description prototype),
                   (''access_level'', AccessLevel prototype)])]"
    by (cases "Address prototype = []"; cases "Name prototype = []";
        cases "Description prototype = []"; cases "AccessLevel prototype = []")
      (simp_all add: CreateMailingList_def Let_def split_beta addValue_def
        newUrlEncodedPayload_def newHTTPRequest_def setClient_def setBasicAuth_def)
  show "snd (UpdateMailingList d m addr prototype w) =
     w @ [PUT \<lparr>URL = generatePublicApiUrl d m (listsEndpoint d) @ ''/'' @ addr, Parameters = [],
                BasicAuthUser = basicAuthUser d, BasicAuthPassword = apiKey m,
                Client = Some (client m)\<rparr>
              (filter (\<lambda>kv. snd kv \<noteq> [])
                 [(''address'', Address prototype), (''name'', Name prototype),
                  (''description'', Description prototype),
                  (''access_level'', AccessLevel prototype)])]"
    by (cases "Address prototype = []"; cases "Name prototype = []";
        cases "Description prototype = []"; cases "AccessLevel prototype = []")
      (simp_all add: UpdateMailingList_def Let_def split_beta addValue_def
        newUrlEncodedPayload_def newHTTPRequest_def setClient_def setBasicAuth_def)
  show "fst (CreateMailingList d m prototype w) =
     (let (response, e) = makePostRequest d w
            \<lparr>URL = generatePublicApiUrl d m (listsEndpoint d), Parameters = [],
             BasicAuthUser = basicAuthUser d, BasicAuthPassword = apiKey m,
             Client = Some (client m)\<rparr>
            (filter (\<lambda>kv. snd kv \<noteq> [])
               [(''address'', Address prototype), (''name'', Name prototype),
                (''description'', Description prototype),
                (''access_level'', AccessLevel prototype)])
      in if e \<noteq> None then (List_zero, e)
         else (snd (parseFromJSON d response List_zero),
               fst (parseFromJSON d response List_zero)))"
    by (cases "Address prototype = []"; cases "Name prototype = []";
        cases "Description prototype = []"; cases "AccessLevel prototype = []")
      (simp_all add: CreateMailingList_def Let_def split_beta addValue_def
        newUrlEncodedPayload_def newHTTPRequest_def setClient_def setBasicAuth_def)
  show "fst (UpdateMailingList d m addr prototype w) =
     (let (response, e) = makePutRequest d w
            \<lparr>URL = generatePublicApiUrl d m (listsEndpoint d) @ ''/'' @ addr, Parameters = [],
             BasicAuthUser = basicAuthUser d, BasicAuthPassword = apiKey m,
             Client = Some (client m)\<rparr>
            (filter (\<lambda>kv. snd kv \<noteq> [])
               [(''address'', Address prototype), (''name'', Name prototype),
                (''description'', Description prototype),
                (''access_level'', AccessLevel prototype)])
      in if e \<noteq> None then (List_zero, e)
         else (snd (parseFromJSON d response List_zero),
               fst (parseFromJSON d response List_zero)))"
    by (cases "Address prototype = []"; cases "Name prototype = []";
        cases "Description prototype = []"; cases "AccessLevel prototype = []")
      (simp_all add: UpdateMailingList_def Let_def split_beta addValue_def
        newUrlEncodedPayload_def newHTTPRequest_def setClient_def setBasicAuth_def)
qed

subsection \<open>The first URL\<close>

text \<open>
  The cursor after a fetch is the one that \<^verbatim>\<open>getResponseFromJSON\<close> left in the
  embedded response; the methods themselves never write the \<open>First\<close> field.
\<close>

lemma fetch_First:
  "First (Paging (li (snd (fetch d url s)))) =
     First (Paging (snd (getResponseFromJSON d (sent s)
       (setBasicAuth (basicAuthUser d) (apiKey (mg (li s)))
          (setClient (client (mg (li s))) (newHTTPRequest url)))
       (listsResponse.truncate (li s)))))"
  by (simp add: fetch_def Let_def split: prod.splits)

lemma truncate_Paging: "Paging (listsResponse.truncate x) = Paging x"
  by (simp add: listsResponse.truncate_def)

lemma fetch_keeps_First:
  assumes "\<forall>w r v. First (Paging v) = u \<longrightarrow>
             First (Paging (snd (getResponseFromJSON d w r v))) = u"
    and "First (Paging (li s)) = u"
  shows "First (Paging (li (snd (fetch d url s)))) = u"
  using assms by (simp add: fetch_First truncate_Paging)

lemma First_Paging:
  "err (li s) = None \<Longrightarrow>
     Paging (li (snd (ListsIterator_First d s))) =
       Paging (li (snd (fetch d (First (Paging (li s))) s)))"
  by (simp add: First_unfold split: prod.splits option.splits)

lemma Next_Paging:
  "err (li s) = None \<Longrightarrow>
     Paging (li (snd (ListsIterator_Next d s))) =
       Paging (li (snd (fetch d (Next (Paging (li s))) s)))"
  by (simp add: Next_unfold split: prod.splits option.splits)

lemma Last_Paging:
  "err (li s) = None \<Longrightarrow>
     Paging (li (snd (ListsIterator_Last d s))) =
       Paging (li (snd (fetch d (Last (Paging (li s))) s)))"
  by (simp add: Last_unfold split: prod.splits option.splits)

lemma Previous_Paging:
  "err (li s) = None \<Longrightarrow> Previous (Paging (li s)) \<noteq> [] \<Longrightarrow>
     Paging (li (snd (ListsIterator_Previous d s))) =
       Paging (li (snd (fetch d (Previous (Paging (li s))) s)))"
  by (simp add: Previous_unfold split: prod.splits option.splits)

lemma call_nav_keeps_First:
  assumes h: "\<forall>w r v. First (Paging v) = u \<longrightarrow>
             First (Paging (snd (getResponseFromJSON d w r v))) = u"
    and u: "First (Paging (li s)) = u"
  shows "First (Paging (li (snd (call_nav d c s)))) = u"
proof (cases "err (li s) = None")
  case True
  note e = this
  show ?thesis
  proof (cases c)
    case NavFirst
    with e fetch_keeps_First [OF h u, of "First (Paging (li s))"] show ?thesis
      by (simp add: First_Paging)
  next
    case NavNext
    with e fetch_keeps_First [OF h u, of "Next (Paging (li s))"] show ?thesis
      by (simp add: Next_Paging)
  next
    case NavPrevious
    show ?thesis
    proof (cases "Previous (Paging (li s)) = []")
      case True
      with e u NavPrevious show ?thesis
        by (simp add: ListsIterator_Previous_def)
    next
      case False
      with e NavPrevious fetch_keeps_First [OF h u, of "Previous (Paging (li s))"]
      show ?thesis
        by (simp add: Previous_Paging)
    qed
  next
    case NavLast
    with e fetch_keeps_First [OF h u, of "Last (Paging (li s))"] show ?thesis
      by (simp add: Last_Paging)
  next
    case NavGetNext
    with fetch_keeps_First [OF h u, of "Next (Paging (li s))"] show ?thesis
      by (simp add: ListsIterator_GetNext_def)
  next
    case NavGetPrevious
    with fetch_keeps_First [OF h u, of "Previous (Paging (li s))"] show ?thesis
      by (simp add: ListsIterator_GetPrevious_def)
  qed
next
  case False
  note e = this
  show ?thesis
  proof (cases c)
    case NavGetNext
    with fetch_keeps_First [OF h u, of "Next (Paging (li s))"] show ?thesis
      by (simp add: ListsIterator_GetNext_def)
  next
    case NavGetPrevious
    with fetch_keeps_First [OF h u, of "Previous (Paging (li s))"] show ?thesis
      by (simp add: ListsIterator_GetPrevious_def)
  qed (use e u in \<open>simp_all add: failed_First failed_Next failed_Previous failed_Last\<close>)
qed

lemma run_keeps_First:
  assumes h: "\<forall>w r v. First (Paging v) = u \<longrightarrow>
             First (Paging (snd (getResponseFromJSON d w r v))) = u"
  shows "First (Paging (li s)) = u \<Longrightarrow> First (Paging (li (snd (run d cs s)))) = u"
proof (induction cs arbitrary: s)
  case Nil
  then show ?case by simp
next
  case (Cons c cs)
  from call_nav_keeps_First [OF h Cons.prems, of c]
  have "First (Paging (li (snd (run d cs (snd (call_nav d c s)))))) = u"
    by (rule Cons.IH)
  then show ?case
    by (simp add: split_beta)
qed

text \<open>
  C3, as the code has it. At construction the cursor's \<open>First\<close> URL is the starting URL.
  Every fetch hands the whole page and cursor to the decoder, so afterwards \<open>First\<close> is
  what the decoded paging metadata says: it stays equal to a URL \<open>u\<close> through every
  sequence of navigation calls provided that every fetch that finds \<open>First = u\<close> in the
  cursor leaves \<open>First = u\<close> there, as a server does that repeats that URL on every
  page. The last conjuncts say where the cursor comes from: after \<open>fetch\<close> it is the
  one \<^verbatim>\<open>getResponseFromJSON\<close> left in the target, and after each navigation method
  that fetches it is the one its fetch left.
\<close>

theorem first_url_through_navigation:
  "First (Paging (fst (ListMailingLists d m opts w))) =
     fst (generateUrlWithParameters d (ListMailingLists_r d m opts)) \<and>
   ((\<forall>w r v. First (Paging v) = u \<longrightarrow>
        First (Paging (snd (getResponseFromJSON d w r v))) = u) \<longrightarrow>
    First (Paging (li s)) = u \<longrightarrow>
    First (Paging (li (snd (run d cs s)))) = u) \<and>
   Paging (li (snd (fetch d url s))) =
     Paging (snd (getResponseFromJSON d (sent s)
       \<lparr>URL = url, Parameters = [], BasicAuthUser = basicAuthUser d,
        BasicAuthPassword = apiKey (mg (li s)), Client = Some (client (mg (li s)))\<rparr>
       (listsResponse.truncate (li s)))) \<and>
   (err (li s) = None \<longrightarrow>
      Paging (li (snd (ListsIterator_First d s))) =
        Paging (li (snd (fetch d (First (Paging (li s))) s))) \<and>
      Paging (li (snd (ListsIterator_Next d s))) =
        Paging (li (snd (fetch d (Next (Paging (li s))) s))) \<and>
      Paging (li (snd (ListsIterator_Last d s))) =
        Paging (li (snd (fetch d (Last (Paging (li s))) s))) \<and>
      (Previous (Paging (li s)) \<noteq> [] \<longrightarrow>
         Paging (li (snd (ListsIterator_Previous d s))) =
           Paging (li (snd (fetch d (Previous (Paging (li s))) s))))) \<and>
   Paging (li (snd (ListsIterator_GetNext d s))) =
     Paging (li (snd (fetch d (Next (Paging (li s))) s))) \<and>
   Paging (li (snd (ListsIterator_GetPrevious d s))) =
     Paging (li (snd (fetch d (Previous (Paging (li s))) s)))"
proof (intro conjI impI)
  show "First (Paging (fst (ListMailingLists d m opts w))) =
     fst (generateUrlWithParameters d (ListMailingLists_r d m opts))"
    by (simp add: ListMailingLists_def split_beta)
  show "First (Paging (li (snd (run d cs s)))) = u"
    if "\<forall>w r v. First (Paging v) = u \<longrightarrow>
        First (Paging (snd (getResponseFromJSON d w r v))) = u"
      and "First (Paging (li s)) = u"
    using that by (rule run_keeps_First)
  show "Paging (li (snd (fetch d url s))) =
     Paging (snd (getResponseFromJSON d (sent s)
       \<lparr>URL = url, Parameters = [], BasicAuthUser = basicAuthUser d,
        BasicAuthPassword = apiKey (mg (li s)), Client = Some (client (mg (li s)))\<rparr>
       (listsResponse.truncate (li s))))"
    by (simp add: fetch_result)
  show "Paging (li (snd (ListsIterator_First d s))) =
        Paging (li (snd (fetch d (First (Paging (li s))) s)))" if "err (li s) = None"
    using that by (rule First_Paging)
  show "Paging (li (snd (ListsIterator_Next d s))) =
        Paging (li (snd (fetch d (Next (Paging (li s))) s)))" if "err (li s) = None"
    using that by (rule Next_Paging)
  show "Paging (li (snd (ListsIterator_Last d s))) =
        Paging (li (snd (fetch d (Last (Paging (li s))) s)))" if "err (li s) = None"
    using that by (rule Last_Paging)
  show "Paging (li (snd (ListsIterator_Previous d s))) =
           Paging (li (snd (fetch d (Previous (Paging (li s))) s)))"
    if "err (li s) = None" and "Previous (Paging (li s)) \<noteq> []"
    using that by (rule Previous_Paging)
  show "Paging (li (snd (ListsIterator_GetNext d s))) =
     Paging (li (snd (fetch d (Next (Paging (li s))) s)))"
    by (simp add: ListsIterator_GetNext_def)
  show "Paging (li (snd (ListsIterator_GetPrevious d s))) =
     Paging (li (snd (fetch d (Previous (Paging (li s))) s)))"
    by (simp add: ListsIterator_GetPrevious_def)
qed

lemma deps_same_first_repeats:
  "First (Paging (snd (getResponseFromJSON deps_same_first w r v))) = First (Paging v)"
  by (simp add: deps_same_first_def)

theorem first_url_through_navigation_witness:
  "(\<forall>w r v. First (Paging (snd (getResponseFromJSON deps_same_first w r v))) =
        First (Paging v)) \<and>
   First (Paging (li s_fresh)) = ''https://api.mailgun.net/v3/lists/pages'' \<and>
   First (Paging (li (snd (run deps_same_first [NavFirst, NavNext, NavGetPrevious, NavLast]
     s_fresh)))) = ''https://api.mailgun.net/v3/lists/pages'' \<and>
   err (li s_fetched) = None \<and> Previous (Paging (li s_fetched)) \<noteq> [] \<and>
   Paging (li (snd (ListsIterator_Previous deps_ok s_fetched))) = Paging page_a \<and>
   Paging (li (snd (ListsIterator_GetNext deps_ok s_fresh))) = Paging page_a"
proof -
  note t = first_url_through_navigation [of deps_same_first mg0 None "[]"
      "''https://api.mailgun.net/v3/lists/pages''" s_fresh
      "[NavFirst, NavNext, NavGetPrevious, NavLast]"]
  from t have "(\<forall>w r v. First (Paging v) = ''https://api.mailgun.net/v3/lists/pages'' \<longrightarrow>
        First (Paging (snd (getResponseFromJSON deps_same_first w r v))) =
          ''https://api.mailgun.net/v3/lists/pages'') \<longrightarrow>
    First (Paging (li s_fresh)) = ''https://api.mailgun.net/v3/lists/pages'' \<longrightarrow>
    First (Paging (li (snd (run deps_same_first [NavFirst, NavNext, NavGetPrevious, NavLast]
      s_fresh)))) = ''https://api.mailgun.net/v3/lists/pages''"
    by blast
  then have a: "First (Paging (li (snd (run deps_same_first
      [NavFirst, NavNext, NavGetPrevious, NavLast] s_fresh)))) =
      ''https://api.mailgun.net/v3/lists/pages''"
    by (simp add: deps_same_first_repeats s_fresh_Paging)
  have p: "Previous (Paging (li s_fetched)) \<noteq> []"
    by (simp add: s_fetched_Paging page_a_Previous)
  note t1 = first_url_through_navigation [of deps_ok mg0 None "[]" "[]" s_fetched "[]"
      "Previous (Paging (li s_fetched))"]
  from t1 s_fetched_err p
  have "Paging (li (snd (ListsIterator_Previous deps_ok s_fetched))) =
      Paging (li (snd (fetch deps_ok (Previous (Paging (li s_fetched))) s_fetched)))"
    and "Paging (li (snd (fetch deps_ok (Previous (Paging (li s_fetched))) s_fetched))) =
      Paging (snd (getResponseFromJSON deps_ok (sent s_fetched)
       \<lparr>URL = Previous (Paging (li s_fetched)), Parameters = [],
        BasicAuthUser = basicAuthUser deps_ok,
        BasicAuthPassword = apiKey (mg (li s_fetched)),
        Client = Some (client (mg (li s_fetched)))\<rparr>
       (listsResponse.truncate (li s_fetched))))"
    by blast+
  then have b: "Paging (li (snd (ListsIterator_Previous deps_ok s_fetched))) = Paging page_a"
    by (simp add: deps_ok_def)
  note t2 = first_url_through_navigation [of deps_ok mg0 None "[]" "[]" s_fresh "[]"
      "Next (Paging (li s_fresh))"]
  from t2
  have "Paging (li (snd (ListsIterator_GetNext deps_ok s_fresh))) =
      Paging (li (snd (fetch deps_ok (Next (Paging (li s_fresh))) s_fresh)))"
    and "Paging (li (snd (fetch deps_ok (Next (Paging (li s_fresh))) s_fresh))) =
      Paging (snd (getResponseFromJSON deps_ok (sent s_fresh)
       \<lparr>URL = Next (Paging (li s_fresh)), Parameters = [],
        BasicAuthUser = basicAuthUser deps_ok,
        BasicAuthPassword = apiKey (mg (li s_fresh)),
        Client = Some (client (mg (li s_fresh)))\<rparr>
       (listsResponse.truncate (li s_fresh))))"
    by blast+
  then have c: "Paging (li (snd (ListsIterator_GetNext deps_ok s_fresh))) = Paging page_a"
    by (simp add: deps_ok_def)
  from a b c p show ?thesis
    by (simp add: deps_same_first_repeats s_fresh_Paging s_fetched_err)
qed

text \<open>
  C3 as stated fails: after one \<^verbatim>\<open>Next\<close> on the iterator just constructed, against
  a server whose paging metadata names another \<open>First\<close> URL, the cursor's \<open>First\<close> is
  that URL and no longer the starting URL.
\<close>

theorem first_url_overwritten_by_fetch:
  "fst (generateUrlWithParameters deps_ok (ListMailingLists_r deps_ok mg0 None)) =
     ''https://api.mailgun.net/v3/lists/pages'' \<and>
   First (Paging (li s_fresh)) = ''https://api.mailgun.net/v3/lists/pages'' \<and>
   fst (ListsIterator_Next deps_ok s_fresh) = True \<and>
   First (Paging (li (snd (ListsIterator_Next deps_ok s_fresh)))) =
     ''https://api.mailgun.net/v3/lists/pages?page=first''"
  by (simp add: s_fresh_Paging s_fresh_err Next_unfold fetch_def deps_ok_def page_a_def
      ListMailingLists_r_def newHTTPRequest_def setClient_def setBasicAuth_def mg0_def list_a_def)


subsection \<open>A failed URL generation\<close>

lemma run_failed:
  "err (li s) \<noteq> None \<Longrightarrow> set cs \<subseteq> {NavFirst, NavNext, NavPrevious, NavLast} \<Longrightarrow>
     run d cs s = (replicate (length cs) (Flag False), s)"
proof (induction cs)
  case Nil
  then show ?case by simp
next
  case (Cons c cs)
  from Cons.prems have "c = NavFirst \<or> c = NavNext \<or> c = NavPrevious \<or> c = NavLast"
    by auto
  with Cons.prems(1) have "call_nav d c s = (Flag False, s)"
    by (auto simp: failed_First failed_Next failed_Previous failed_Last)
  moreover from Cons have "run d cs s = (replicate (length cs) (Flag False), s)"
    by simp
  ultimately show ?case
    by simp
qed

text \<open>
  C10. If \<^verbatim>\<open>generateUrlWithParameters\<close> fails during construction, the iterator is
  returned with that error as its sticky error, so that \<^verbatim>\<open>Err()\<close> returns it before
  any navigation call, nothing has been sent, and every sequence of \<^verbatim>\<open>First\<close>,
  \<^verbatim>\<open>Next\<close>, \<^verbatim>\<open>Previous\<close> and \<^verbatim>\<open>Last\<close> calls returns false each time and leaves
  the iterator, the caller's slice and the calls sent as they were.
\<close>

theorem construction_failure_is_sticky:
  "snd (generateUrlWithParameters d (ListMailingLists_r d m opts)) = Some e \<Longrightarrow>
     ListsIterator_Err (fst (ListMailingLists d m opts w)) = Some e \<and>
     snd (ListMailingLists d m opts w) = w \<and>
     (set cs \<subseteq> {NavFirst, NavNext, NavPrevious, NavLast} \<longrightarrow>
        run d cs \<lparr>li = fst (ListMailingLists d m opts w), items = xs, sent = w\<rparr> =
          (replicate (length cs) (Flag False),
           \<lparr>li = fst (ListMailingLists d m opts w), items = xs, sent = w\<rparr>))"
proof (intro conjI impI)
  assume g: "snd (generateUrlWithParameters d (ListMailingLists_r d m opts)) = Some e"
  then show e: "ListsIterator_Err (fst (ListMailingLists d m opts w)) = Some e"
    by (simp add: ListsIterator_Err_def ListMailingLists_def split_beta)
  show "snd (ListMailingLists d m opts w) = w"
    by (simp add: ListMailingLists_def split_beta)
  assume "set cs \<subseteq> {NavFirst, NavNext, NavPrevious, NavLast}"
  with e show "run d cs \<lparr>li = fst (ListMailingLists d m opts w), items = xs, sent = w\<rparr> =
          (replicate (length cs) (Flag False),
           \<lparr>li = fst (ListMailingLists d m opts w), items = xs, sent = w\<rparr>)"
    by (simp add: run_failed ListsIterator_Err_def)
qed

theorem construction_failure_is_sticky_witness:
  "snd (generateUrlWithParameters deps_badurl (ListMailingLists_r deps_badurl mg0 None)) =
     Some (Error ''invalid URL'') \<and>
   ListsIterator_Err (fst (ListMailingLists deps_badurl mg0 None [])) =
     Some (Error ''invalid URL'') \<and>
   fst (run deps_badurl [NavFirst, NavNext, NavPrevious, NavLast]
     \<lparr>li = fst (ListMailingLists deps_badurl mg0 None []), items = [], sent = []\<rparr>) =
     [Flag False, Flag False, Flag False, Flag False] \<and>
   sent (snd (run deps_badurl [NavFirst, NavNext, NavPrevious, NavLast]
     \<lparr>li = fst (ListMailingLists deps_badurl mg0 None []), items = [], sent = []\<rparr>)) = []"
proof -
  have g: "snd (generateUrlWithParameters deps_badurl (ListMailingLists_r deps_badurl mg0 None)) =
     Some (Error ''invalid URL'')"
    by (simp add: deps_badurl_def)
  from construction_failure_is_sticky [OF g, of "[]" "[NavFirst, NavNext, NavPrevious, NavLast]" "[]"]
    g
  show ?thesis
    by simp
qed

subsection \<open>Failed fetches under the specification's page fetcher\<close>

lemma fetch_spec_failed:
  "fetch (with_spec_fetcher d server) url s = (Some e, s1) \<Longrightarrow> li s1 = li s \<and> items s1 = items s"
  by (auto simp: fetch_def Let_def with_spec_fetcher_def getResponseFromJSON_spec_def
      listsResponse.truncate_def split: prod.splits sum.splits)

lemma flag_call_failed:
  assumes n: "err (li s) = None"
    and r: "r = (case fetch (with_spec_fetcher d server) url s of
                   (None, s1) \<Rightarrow> (b s1, s1\<lparr>items := Lists (li s1)\<rparr>)
                 | (Some e, s1) \<Rightarrow> (False, s1\<lparr>li := (li s1)\<lparr>err := Some e\<rparr>\<rparr>))"
    and e: "err (li (snd r)) \<noteq> None"
  shows "Lists (li (snd r)) = Lists (li s) \<and> Paging (li (snd r)) = Paging (li s) \<and>
         items (snd r) = items s"
proof -
  obtain eo s1 where f: "fetch (with_spec_fetcher d server) url s = (eo, s1)"
    by (cases "fetch (with_spec_fetcher d server) url s")
  show ?thesis
  proof (cases eo)
    case None
    with f r have "err (li (snd r)) = err (li s1)"
      by simp
    with fetch_frame [OF f] n e show ?thesis
      by simp
  next
    case (Some e')
    with f fetch_spec_failed [of d server url s e' s1] have "li s1 = li s" "items s1 = items s"
      by simp_all
    with f r Some show ?thesis
      by simp
  qed
qed

lemma getter_call_failed:
  assumes c: "apfst Failure (fetch (with_spec_fetcher d server) url s) = (x, s')"
    and x: "x = Failure (Some e) \<or> x = Flag False \<and> err (li s') = Some e"
  shows "Lists (li s') = Lists (li s) \<and> Paging (li s') = Paging (li s) \<and> items s' = items s"
proof -
  obtain eo s1 where f: "fetch (with_spec_fetcher d server) url s = (eo, s1)"
    by (cases "fetch (with_spec_fetcher d server) url s")
  with c x have "eo = Some e" "s1 = s'"
    by auto
  with f fetch_spec_failed [of d server url s e s'] show ?thesis
    by simp
qed

lemma flag_reply:
  assumes "apfst Flag r = (x, s')"
    and "x = Failure (Some e) \<or> x = Flag False \<and> err (li s') = Some e"
  shows "s' = snd r \<and> err (li s') \<noteq> None"
  using assms by (cases r) auto

lemma flag_call_unchanged:
  assumes c: "apfst Flag (False, s) = (x, s')"
  shows "Lists (li s') = Lists (li s) \<and> Paging (li s') = Paging (li s) \<and> items s' = items s"
  using c by auto

text \<open>
  C9, with the page fetcher of the specification in the place of
  \<^verbatim>\<open>getResponseFromJSON\<close>. Whenever a navigation call's fetch fails (the call returns
  the error, for \<^verbatim>\<open>GetNext\<close> and \<^verbatim>\<open>GetPrevious\<close>, or returns false with the
  sticky error set, for the boolean methods), the iterator's page and cursor are what
  they were before the call and the caller's slice is not written.
\<close>

theorem failed_fetch_leaves_page_and_cursor:
  "call_nav (with_spec_fetcher d server) c s = (x, s') \<Longrightarrow>
   x = Failure (Some e) \<or> x = Flag False \<and> err (li s') = Some e \<Longrightarrow>
     Lists (li s') = Lists (li s) \<and> Paging (li s') = Paging (li s) \<and> items s' = items s"
proof -
  assume c: "call_nav (with_spec_fetcher d server) c s = (x, s')"
    and x: "x = Failure (Some e) \<or> x = Flag False \<and> err (li s') = Some e"
  let ?d = "with_spec_fetcher d server"
  show ?thesis
  proof (cases c)
    case NavGetNext
    with c have "apfst Failure (fetch ?d (Next (Paging (li s))) s) = (x, s')"
      by (simp add: ListsIterator_GetNext_def)
    from getter_call_failed [OF this x] show ?thesis .
  next
    case NavGetPrevious
    with c have "apfst Failure (fetch ?d (Previous (Paging (li s))) s) = (x, s')"
      by (simp add: ListsIterator_GetPrevious_def)
    from getter_call_failed [OF this x] show ?thesis .
  next
    case NavFirst
    show ?thesis
    proof (cases "err (li s) = None")
      case True
      from c NavFirst have "apfst Flag (ListsIterator_First ?d s) = (x, s')"
        by simp
      from flag_reply [OF this x]
      have "s' = snd (ListsIterator_First ?d s)" "err (li s') \<noteq> None"
        by blast+
      with flag_call_failed [OF True First_unfold [OF True]] show ?thesis
        by simp
    next
      case False
      with c NavFirst have "apfst Flag (False, s) = (x, s')"
        by (simp add: failed_First)
      then show ?thesis by (rule flag_call_unchanged)
    qed
  next
    case NavNext
    show ?thesis
    proof (cases "err (li s) = None")
      case True
      from c NavNext have "apfst Flag (ListsIterator_Next ?d s) = (x, s')"
        by simp
      from flag_reply [OF this x]
      have "s' = snd (ListsIterator_Next ?d s)" "err (li s') \<noteq> None"
        by blast+
      with flag_call_failed [OF True Next_unfold [OF True]] show ?thesis
        by simp
    next
      case False
      with c NavNext have "apfst Flag (False, s) = (x, s')"
        by (simp add: failed_Next)
      then show ?thesis by (rule flag_call_unchanged)
    qed
  next
    case NavLast
    show ?thesis
    proof (cases "err (li s) = None")
      case True
      from c NavLast have "apfst Flag (ListsIterator_Last ?d s) = (x, s')"
        by simp
      from flag_reply [OF this x]
      have "s' = snd (ListsIterator_Last ?d s)" "err (li s') \<noteq> None"
        by blast+
      with flag_call_failed [OF True Last_unfold [OF True]] show ?thesis
        by simp
    next
      case False
      with c NavLast have "apfst Flag (False, s) = (x, s')"
        by (simp add: failed_Last)
      then show ?thesis by (rule flag_call_unchanged)
    qed
  next
    case NavPrevious
    show ?thesis
    proof (cases "err (li s) = None \<and> Previous (Paging (li s)) \<noteq> []")
      case True
      then have n: "err (li s) = None" and p: "Previous (Paging (li s)) \<noteq> []"
        by simp_all
      from c NavPrevious have "apfst Flag (ListsIterator_Previous ?d s) = (x, s')"
        by simp
      from flag_reply [OF this x]
      have "s' = snd (ListsIterator_Previous ?d s)" "err (li s') \<noteq> None"
        by blast+
      with flag_call_failed [OF n Previous_unfold [OF n p]] show ?thesis
        by simp
    next
      case False
      then have "ListsIterator_Previous ?d s = (False, s)"
        by (auto simp: ListsIterator_Previous_def)
      with c NavPrevious have "apfst Flag (False, s) = (x, s')"
        by simp
      then show ?thesis by (rule flag_call_unchanged)
    qed
  qed
qed

lemma fetch_server_down:
  "fetch (with_spec_fetcher deps_ok server_down) url s_fetched =
    (Some (Error ''502''),
     s_fetched\<lparr>sent := [GET \<lparr>URL = url, Parameters = [], BasicAuthUser = ''api'',
       BasicAuthPassword = ''key-0'', Client = Some 0\<rparr>]\<rparr>)"
  by (simp add: fetch_def with_spec_fetcher_def getResponseFromJSON_spec_def server_down_def
      deps_ok_def s_fetched_def newHTTPRequest_def setClient_def setBasicAuth_def mg0_def
      listsResponse.truncate_def)

lemma Next_server_down:
  "ListsIterator_Next (with_spec_fetcher deps_ok server_down) s_fetched =
    (False,
     s_fetched\<lparr>li := (li s_fetched)\<lparr>err := Some (Error ''502'')\<rparr>,
       sent := [GET \<lparr>URL = Next (Paging (li s_fetched)), Parameters = [], BasicAuthUser = ''api'',
       BasicAuthPassword = ''key-0'', Client = Some 0\<rparr>]\<rparr>)"
  by (simp add: Next_unfold s_fetched_err fetch_server_down)

lemma GetPrevious_server_down:
  "ListsIterator_GetPrevious (with_spec_fetcher deps_ok server_down) s_fetched =
    (Some (Error ''502''),
     s_fetched\<lparr>sent := [GET \<lparr>URL = Previous (Paging (li s_fetched)), Parameters = [],
       BasicAuthUser = ''api'', BasicAuthPassword = ''key-0'', Client = Some 0\<rparr>]\<rparr>)"
  by (simp add: ListsIterator_GetPrevious_def fetch_server_down)

theorem failed_fetch_leaves_page_and_cursor_witness:
  "fst (call_nav (with_spec_fetcher deps_ok server_down) NavNext s_fetched) = Flag False \<and>
   err (li (snd (call_nav (with_spec_fetcher deps_ok server_down) NavNext s_fetched))) =
     Some (Error ''502'') \<and>
   Lists (li (snd (call_nav (with_spec_fetcher deps_ok server_down) NavNext s_fetched))) =
     [list_a] \<and>
   Paging (li (snd (call_nav (with_spec_fetcher deps_ok server_down) NavNext s_fetched))) =
     Paging page_a \<and>
   items (snd (call_nav (with_spec_fetcher deps_ok server_down) NavNext s_fetched)) = [list_a] \<and>
   fst (call_nav (with_spec_fetcher deps_ok server_down) NavGetPrevious s_fetched) =
     Failure (Some (Error ''502'')) \<and>
   Lists (li (snd (call_nav (with_spec_fetcher deps_ok server_down) NavGetPrevious s_fetched))) =
     [list_a] \<and>
   Paging (li (snd (call_nav (with_spec_fetcher deps_ok server_down) NavGetPrevious s_fetched))) =
     Paging page_a \<and>
   items (snd (call_nav (with_spec_fetcher deps_ok server_down) NavGetPrevious s_fetched)) =
     [list_a]"
proof -
  let ?r = "call_nav (with_spec_fetcher deps_ok server_down) NavNext s_fetched"
  let ?g = "call_nav (with_spec_fetcher deps_ok server_down) NavGetPrevious s_fetched"
  have x: "fst ?r = Flag False" and e: "err (li (snd ?r)) = Some (Error ''502'')"
    by (simp_all add: Next_server_down)
  have y: "fst ?g = Failure (Some (Error ''502''))"
    by (simp add: GetPrevious_server_down)
  have "?r = (fst ?r, snd ?r)"
    by (rule surjective_pairing)
  from failed_fetch_leaves_page_and_cursor [OF this, of "Error ''502''"] x e
  have r: "Lists (li (snd ?r)) = Lists (li s_fetched) \<and>
        Paging (li (snd ?r)) = Paging (li s_fetched) \<and> items (snd ?r) = items s_fetched"
    by simp
  have "?g = (fst ?g, snd ?g)"
    by (rule surjective_pairing)
  from failed_fetch_leaves_page_and_cursor [OF this, of "Error ''502''"] y
  have g: "Lists (li (snd ?g)) = Lists (li s_fetched) \<and>
        Paging (li (snd ?g)) = Paging (li s_fetched) \<and> items (snd ?g) = items s_fetched"
    by simp
  from x e y r g show ?thesis
    by (simp add: s_fetched_def page_a_def)
qed

end
